theory Spec2Isabelle
  imports Complex_Main "HOL-Library.Word" "HOL-Library.Log_Nat" "HOL-Library.Stream"
begin

section \<open>EdDSA signatures of zokrates-pycrypto (eddsa.py)\<close>

text \<open>
  The module \<^verbatim>\<open>zokrates/eddsa.py\<close> defines \<^verbatim>\<open>PrivateKey\<close> (\<^verbatim>\<open>from_rand\<close>, \<^verbatim>\<open>sign\<close>),
  \<^verbatim>\<open>PublicKey\<close> (\<^verbatim>\<open>from_private\<close>, \<^verbatim>\<open>verify\<close>) and \<^verbatim>\<open>hash_to_scalar\<close>. It imports the curve
  (\<^verbatim>\<open>babyjubjub.Point\<close>, \<^verbatim>\<open>JUBJUB_E\<close>, \<^verbatim>\<open>JUBJUB_L\<close>), the field element class \<^verbatim>\<open>field.FQ\<close> and
  \<^verbatim>\<open>utils.to_bytes\<close>; those modules are not part of the sources at hand, so the curve
  operations, the byte encoding, the hash primitive and the two constants are parameters of
  the model, collected in the record \<open>collab\<close>.
\<close>

subsection \<open>Python values and exceptions\<close>

type_synonym byte = "8 word"

text \<open>
  Python is dynamically typed: the arguments of \<^verbatim>\<open>sign\<close>, \<^verbatim>\<open>verify\<close> and \<^verbatim>\<open>from_private\<close>
  may be any object. The universe below holds the objects this module handles: \<^verbatim>\<open>None\<close>,
  integers, \<^verbatim>\<open>bytes\<close>, field elements \<^verbatim>\<open>FQ(n)\<close> (with attribute \<^verbatim>\<open>n\<close>), curve points, tuples,
  and the two named tuples \<^verbatim>\<open>PrivateKey(fe)\<close> and \<^verbatim>\<open>PublicKey(p)\<close>. The type \<open>'p\<close> is the type
  of curve points, compared by \<^verbatim>\<open>==\<close> as HOL equality.
\<close>

datatype 'p pyval =
    PyNone
  | PyInt int
  | PyBytes "byte list"
  | FQ int
  | Point 'p
  | Tuple "'p pyval list"
  | is_PrivateKey: PrivateKey (fe: "'p pyval")
  | PublicKey "'p pyval"

datatype pyerr = AttributeError | TypeError | ValueError | ZeroDivisionError | OverflowError

subsection \<open>The collaborators\<close>

record 'p collab =
  generator :: 'p
    \<comment> \<open>\<^verbatim>\<open>Point.generator()\<close>\<close>
  point_add :: "'p \<Rightarrow> 'p \<Rightarrow> 'p"
    \<comment> \<open>\<^verbatim>\<open>Point.__add__\<close>\<close>
  point_mult :: "'p \<Rightarrow> int \<Rightarrow> 'p"
    \<comment> \<open>\<^verbatim>\<open>Point.mult\<close> on the integer value of its scalar\<close>
  to_bytes :: "'p pyval \<Rightarrow> pyerr + byte list"
    \<comment> \<open>\<^verbatim>\<open>utils.to_bytes\<close> on one argument; it may raise\<close>
  sha256 :: "byte list \<Rightarrow> byte list"
    \<comment> \<open>\<^verbatim>\<open>hashlib.sha256(p).digest()\<close>\<close>
  JUBJUB_E :: int
  JUBJUB_L :: int

text \<open>
  Modelled from the spec: \<^verbatim>\<open>Point.mult\<close> of babyjubjub.py, which is not among the sources.
  The group collaborator offers the scalar multiplication of a point by an integer, and a
  field element exposes its canonical integer value; any other scalar is a type error.
\<close>

definition mult :: "'p collab \<Rightarrow> 'p \<Rightarrow> 'p pyval \<Rightarrow> pyerr + 'p" where
  "mult ops P scalar =
     (case scalar of
        PyInt n \<Rightarrow> Inr (point_mult ops P n)
      | FQ n \<Rightarrow> Inr (point_mult ops P n)
      | _ \<Rightarrow> Inl TypeError)"

text \<open>The method call \<^verbatim>\<open>A.mult(s)\<close> on an arbitrary object \<^verbatim>\<open>A\<close>: only points have the method.\<close>

definition call_mult :: "'p collab \<Rightarrow> 'p pyval \<Rightarrow> 'p pyval \<Rightarrow> pyerr + 'p" where
  "call_mult ops A scalar =
     (case A of Point P \<Rightarrow> mult ops P scalar | _ \<Rightarrow> Inl AttributeError)"

text \<open>The expression \<^verbatim>\<open>R + Q\<close> for an arbitrary object \<^verbatim>\<open>R\<close> and a point \<^verbatim>\<open>Q\<close>.\<close>

definition call_add :: "'p collab \<Rightarrow> 'p pyval \<Rightarrow> 'p \<Rightarrow> pyerr + 'p" where
  "call_add ops R Q =
     (case R of Point P \<Rightarrow> Inr (point_add ops P Q) | _ \<Rightarrow> Inl TypeError)"

text \<open>The attribute access \<^verbatim>\<open>x.n\<close>: of the objects above only a field element has it.\<close>

definition attr_n :: "'p pyval \<Rightarrow> pyerr + int" where
  "attr_n x = (case x of FQ n \<Rightarrow> Inr n | _ \<Rightarrow> Inl AttributeError)"

text \<open>Python's \<^verbatim>\<open>a % b\<close> on integers: floored, and an exception when \<^verbatim>\<open>b\<close> is zero.\<close>

definition py_mod :: "int \<Rightarrow> int \<Rightarrow> pyerr + int" where
  "py_mod a b = (if b = 0 then Inl ZeroDivisionError else Inr (a mod b))"

text \<open>
  \<^verbatim>\<open>B = B or Point.generator()\<close>: the optional base point; a point object is truthy, so
  only \<^verbatim>\<open>None\<close> selects the generator.
\<close>

definition base_point :: "'p collab \<Rightarrow> 'p option \<Rightarrow> 'p" where
  "base_point ops B = (case B of None \<Rightarrow> generator ops | Some P \<Rightarrow> P)"

text \<open>
  The tuple assignment \<^verbatim>\<open>R, S = sig\<close>: a sequence of exactly two items is unpacked
  (iterating over \<^verbatim>\<open>bytes\<close> gives integers); a sequence of another length raises
  \<^verbatim>\<open>ValueError\<close>, the one-field named tuples included; an object that is not iterable raises
  \<^verbatim>\<open>TypeError\<close>. Field elements and points, whose classes are not among the sources, are
  taken as not iterable; no property below depends on that choice.
\<close>

definition unpack2 :: "'p pyval \<Rightarrow> pyerr + ('p pyval \<times> 'p pyval)" where
  "unpack2 sig =
     (case sig of
        Tuple xs \<Rightarrow> (case xs of [R, S] \<Rightarrow> Inr (R, S) | _ \<Rightarrow> Inl ValueError)
      | PyBytes bs \<Rightarrow>
          (case bs of [a, b] \<Rightarrow> Inr (PyInt (uint a), PyInt (uint b)) | _ \<Rightarrow> Inl ValueError)
      | PrivateKey _ \<Rightarrow> Inl ValueError
      | PublicKey _ \<Rightarrow> Inl ValueError
      | _ \<Rightarrow> Inl TypeError)"

subsection \<open>Bytes, hexadecimal text and integers\<close>

text \<open>\<^verbatim>\<open>bytes.hex()\<close>: two lower-case hexadecimal digits for every byte.\<close>

definition hexdigits :: string where
  "hexdigits = ''0123456789abcdef''"

definition hex_byte :: "byte \<Rightarrow> string" where
  "hex_byte b = [hexdigits ! (unat b div 16), hexdigits ! (unat b mod 16)]"

definition bytes_hex :: "byte list \<Rightarrow> string" where
  "bytes_hex bs = concat (map hex_byte bs)"

text \<open>
  \<^verbatim>\<open>int(s, 16)\<close> on a text of hexadecimal digits; the empty text and any other character
  raise \<^verbatim>\<open>ValueError\<close> (signs, prefixes and underscores never occur in the output of
  \<^verbatim>\<open>hex()\<close> and are not modelled).
\<close>

definition hex_digit_value :: "char \<Rightarrow> int option" where
  "hex_digit_value c = map_of
     [(CHR ''0'', 0), (CHR ''1'', 1), (CHR ''2'', 2), (CHR ''3'', 3), (CHR ''4'', 4),
      (CHR ''5'', 5), (CHR ''6'', 6), (CHR ''7'', 7), (CHR ''8'', 8), (CHR ''9'', 9),
      (CHR ''a'', 10), (CHR ''b'', 11), (CHR ''c'', 12), (CHR ''d'', 13), (CHR ''e'', 14),
      (CHR ''f'', 15), (CHR ''A'', 10), (CHR ''B'', 11), (CHR ''C'', 12), (CHR ''D'', 13),
      (CHR ''E'', 14), (CHR ''F'', 15)] c"

fun int16_digits :: "int \<Rightarrow> string \<Rightarrow> pyerr + int" where
  "int16_digits acc [] = Inr acc"
| "int16_digits acc (c # cs) =
     (case hex_digit_value c of
        None \<Rightarrow> Inl ValueError
      | Some d \<Rightarrow> int16_digits (acc * 16 + d) cs)"

definition int_base16 :: "string \<Rightarrow> pyerr + int" where
  "int_base16 s = (if s = [] then Inl ValueError else int16_digits 0 s)"

text \<open>\<^verbatim>\<open>int.from_bytes(bs, "little")\<close>: the first byte is the least significant.\<close>

fun int_from_bytes_little :: "byte list \<Rightarrow> int" where
  "int_from_bytes_little [] = 0"
| "int_from_bytes_little (b # bs) = uint b + 256 * int_from_bytes_little bs"

text \<open>
  The reading of a byte string as a big-endian unsigned integer, as the specification
  words the output of the scalar hash; \<open>hash_to_scalar\<close> below does not use it.
\<close>

definition be_uint :: "byte list \<Rightarrow> int" where
  "be_uint bs = foldl (\<lambda>acc b. acc * 256 + uint b) 0 bs"

subsection \<open>hash_to_scalar\<close>

text \<open>
  The generator expression \<^verbatim>\<open>to_bytes(_) for _ in args\<close> consumed by \<^verbatim>\<open>b"".join\<close>: the
  arguments are encoded from left to right and the first exception ends the evaluation.
\<close>

fun encode_each :: "('a \<Rightarrow> pyerr + byte list) \<Rightarrow> 'a list \<Rightarrow> pyerr + byte list list" where
  "encode_each enc [] = Inr []"
| "encode_each enc (a # as) =
     (case enc a of
        Inl e \<Rightarrow> Inl e
      | Inr bs \<Rightarrow> (case encode_each enc as of Inl e \<Rightarrow> Inl e | Inr rest \<Rightarrow> Inr (bs # rest)))"

definition hash_to_scalar :: "'p collab \<Rightarrow> 'p pyval list \<Rightarrow> pyerr + int" where
  "hash_to_scalar ops args =
     (case encode_each (to_bytes ops) args of
        Inl e \<Rightarrow> Inl e
      | Inr parts \<Rightarrow>
          (let p = concat parts;
               digest = sha256 ops p
           in int_base16 (bytes_hex digest)))"

subsection \<open>PublicKey.from_private, PrivateKey.sign, PublicKey.verify\<close>

text \<open>
  \<^verbatim>\<open>PublicKey.from_private(sk, B)\<close>: an argument that is not a \<^verbatim>\<open>PrivateKey\<close> is wrapped
  into one, then the base point is multiplied by the field \<^verbatim>\<open>fe\<close>.
\<close>

definition from_private :: "'p collab \<Rightarrow> 'p pyval \<Rightarrow> 'p option \<Rightarrow> pyerr + 'p pyval" where
  "from_private ops sk B =
     (let B' = base_point ops B;
          sk' = (if \<not> is_PrivateKey sk then PrivateKey sk else sk)
      in case mult ops B' (fe sk') of
           Inl e \<Rightarrow> Inl e
         | Inr A \<Rightarrow> Inr (PublicKey (Point A)))"

text \<open>
  \<^verbatim>\<open>PrivateKey(fe).sign(msg, B)\<close>; the first argument is the field \<^verbatim>\<open>fe\<close> of \<^verbatim>\<open>self\<close>. The
  public key is derived without passing \<^verbatim>\<open>B\<close> on, and it enters the second hash as the
  \<^verbatim>\<open>PublicKey\<close> object.
\<close>

definition sign :: "'p collab \<Rightarrow> 'p pyval \<Rightarrow> 'p pyval \<Rightarrow> 'p option \<Rightarrow> pyerr + 'p pyval" where
  "sign ops self_fe msg B =
     (let B' = base_point ops B in
      case from_private ops (PrivateKey self_fe) None of Inl e \<Rightarrow> Inl e | Inr A \<Rightarrow>
      (let M = msg in
       case hash_to_scalar ops [self_fe, M] of Inl e \<Rightarrow> Inl e | Inr r \<Rightarrow>
       case mult ops B' (PyInt r) of Inl e \<Rightarrow> Inl e | Inr R \<Rightarrow>
       case hash_to_scalar ops [Point R, A, M] of Inl e \<Rightarrow> Inl e | Inr hRAM \<Rightarrow>
       case attr_n self_fe of Inl e \<Rightarrow> Inl e | Inr key_field \<Rightarrow>
       case py_mod (r + key_field * hRAM) (JUBJUB_E ops) of Inl e \<Rightarrow> Inl e | Inr S \<Rightarrow>
       Inr (Tuple [Point R, PyInt S])))"

text \<open>\<^verbatim>\<open>PublicKey(p).verify(sig, msg, B)\<close>; the first argument is the field \<^verbatim>\<open>p\<close> of \<^verbatim>\<open>self\<close>.\<close>

definition verify :: "'p collab \<Rightarrow> 'p pyval \<Rightarrow> 'p pyval \<Rightarrow> 'p pyval \<Rightarrow> 'p option \<Rightarrow> pyerr + bool" where
  "verify ops self_p sig msg B =
     (let B' = base_point ops B in
      case unpack2 sig of Inl e \<Rightarrow> Inl e | Inr (R, S) \<Rightarrow>
      (let M = msg; A = self_p in
       case mult ops B' S of Inl e \<Rightarrow> Inl e | Inr lhs \<Rightarrow>
       case hash_to_scalar ops [R, A, M] of Inl e \<Rightarrow> Inl e | Inr hRAM \<Rightarrow>
       case call_mult ops A (PyInt hRAM) of Inl e \<Rightarrow> Inl e | Inr AhRAM \<Rightarrow>
       case call_add ops R AhRAM of Inl e \<Rightarrow> Inl e | Inr rhs \<Rightarrow>
       Inr (lhs = rhs)))"

subsection \<open>PrivateKey.from_rand\<close>

text \<open>
  The entropy source \<^verbatim>\<open>os.urandom\<close> is a stream of bytes that is passed in and handed back:
  \<^verbatim>\<open>urandom(n)\<close> takes the next \<open>n\<close> bytes. \<^verbatim>\<open>math.log2\<close> is the real logarithm (it raises
  \<^verbatim>\<open>ValueError\<close> outside the positive numbers) and \<^verbatim>\<open>/\<close> the real division.
\<close>

definition rand_nbytes :: "int \<Rightarrow> int" where
  "rand_nbytes m = \<lceil>real_of_int \<lceil>log 2 (real_of_int m)\<rceil> / 8\<rceil> + 1"

definition from_rand :: "'p collab \<Rightarrow> byte stream \<Rightarrow> (pyerr + 'p pyval) \<times> byte stream" where
  "from_rand ops urandom =
     (let m = JUBJUB_L ops in
      if m \<le> 0 then (Inl ValueError, urandom)
      else
        (let nbytes = nat (rand_nbytes m);
             rand_n = int_from_bytes_little (stake nbytes urandom)
         in (Inr (PrivateKey (PyInt rand_n)), sdrop nbytes urandom)))"

subsection \<open>The contract of the collaborators\<close>

text \<open>
  Modelled from the spec: the properties of the curve of babyjubjub.py, which is not among
  the sources. Scalar multiplication of the generator by non-negative integers is linear
  (\<open>G * (a + b) = G * a + G * b\<close> and \<open>(G * a) * b = G * (a * b)\<close>), it reduces its scalar
  modulo the scalar-arithmetic order \<^verbatim>\<open>JUBJUB_E\<close>, and that order is positive.
\<close>

definition group_laws :: "'p collab \<Rightarrow> bool" where
  "group_laws ops \<longleftrightarrow>
     (\<forall>a b. 0 \<le> a \<and> 0 \<le> b \<longrightarrow>
        point_mult ops (generator ops) (a + b)
          = point_add ops (point_mult ops (generator ops) a) (point_mult ops (generator ops) b))
   \<and> (\<forall>a b. 0 \<le> a \<and> 0 \<le> b \<longrightarrow>
        point_mult ops (point_mult ops (generator ops) a) b
          = point_mult ops (generator ops) (a * b))
   \<and> (\<forall>a. 0 \<le> a \<longrightarrow>
        point_mult ops (generator ops) (a mod JUBJUB_E ops) = point_mult ops (generator ops) a)
   \<and> 0 < JUBJUB_E ops"

text \<open>
  Modelled from the spec: the properties of \<^verbatim>\<open>utils.to_bytes\<close> and of the hash primitive,
  neither among the sources. Field elements, points and the message \<open>M\<close> have a canonical
  byte encoding, a \<^verbatim>\<open>PublicKey\<close> object is encoded as the point it wraps, and a digest has
  256 bits.
\<close>

definition encoding_ok :: "'p collab \<Rightarrow> 'p pyval \<Rightarrow> bool" where
  "encoding_ok ops M \<longleftrightarrow>
     (\<forall>n. \<exists>bs. to_bytes ops (FQ n) = Inr bs)
   \<and> (\<forall>P. \<exists>bs. to_bytes ops (Point P) = Inr bs)
   \<and> (\<forall>P. to_bytes ops (PublicKey (Point P)) = to_bytes ops (Point P))
   \<and> (\<exists>bs. to_bytes ops M = Inr bs)
   \<and> (\<forall>x. length (sha256 ops x) = 32)"

subsection \<open>Calls in a process with an entropy source\<close>

text \<open>
  \<^verbatim>\<open>sign\<close> and \<^verbatim>\<open>verify\<close> contain no call of \<^verbatim>\<open>urandom\<close> and no assignment to shared state:
  run in a process whose entropy source is \<open>urandom\<close>, they return their result and leave
  the source as it was. \<open>from_rand\<close> above is the one operation that reads it.
\<close>

definition run_sign ::
  "'p collab \<Rightarrow> 'p pyval \<Rightarrow> 'p pyval \<Rightarrow> 'p option \<Rightarrow> byte stream
     \<Rightarrow> (pyerr + 'p pyval) \<times> byte stream" where
  "run_sign ops self_fe msg B urandom = (sign ops self_fe msg B, urandom)"

definition run_verify ::
  "'p collab \<Rightarrow> 'p pyval \<Rightarrow> 'p pyval \<Rightarrow> 'p pyval \<Rightarrow> 'p option \<Rightarrow> byte stream
     \<Rightarrow> (pyerr + bool) \<times> byte stream" where
  "run_verify ops self_p sig msg B urandom = (verify ops self_p sig msg B, urandom)"

subsection \<open>A small collaborator for concrete evaluation\<close>

text \<open>
  The integers modulo 24 under addition, with the base point 8 of order 3: a group whose
  order is eight times the order of its base point. Values are encoded in one byte and the
  digest is 31 zero bytes followed by the sum of the input bytes.
\<close>

fun demo_to_bytes :: "int pyval \<Rightarrow> pyerr + byte list" where
  "demo_to_bytes (PyBytes bs) = Inr bs"
| "demo_to_bytes (PyInt n) = Inr [word_of_int n]"
| "demo_to_bytes (FQ n) = Inr [word_of_int n]"
| "demo_to_bytes (Point P) = Inr [word_of_int P]"
| "demo_to_bytes (PublicKey v) = demo_to_bytes v"
| "demo_to_bytes (PrivateKey v) = demo_to_bytes v"
| "demo_to_bytes PyNone = Inl TypeError"
| "demo_to_bytes (Tuple vs) = Inl TypeError"

definition demo_digest :: "byte list \<Rightarrow> byte list" where
  "demo_digest bs = replicate 31 0 @ [sum_list bs]"

definition demo :: "int collab" where
  "demo = \<lparr> generator = 8,
            point_add = (\<lambda>P Q. (P + Q) mod 24),
            point_mult = (\<lambda>P k. (P * k) mod 24),
            to_bytes = demo_to_bytes,
            sha256 = demo_digest,
            JUBJUB_E = 24,
            JUBJUB_L = 3 \<rparr>"

section \<open>Properties\<close>

subsection \<open>Hexadecimal text and big-endian integers\<close>

lemma hex_digit_roundtrip:
  assumes "k < 16" shows "hex_digit_value (hexdigits ! k) = Some (int k)"
proof -
  from assms have "k \<in> {0,1,2,3,4,5,6,7,8,9,10,11,12,13,14,15}" by (simp; presburger)
  then show ?thesis by (auto simp: hexdigits_def hex_digit_value_def)
qed

lemma int16_digits_hex_byte:
  "int16_digits acc (hex_byte b @ cs) = int16_digits (acc * 256 + uint b) cs"
proof -
  have "unat b < 256" using unsigned_less [of b, where ?'a = nat] by simp
  then have hi: "unat b div 16 < 16" by simp
  have lo: "unat b mod 16 < 16" by simp
  have "int (unat b div 16) * 16 + int (unat b mod 16) = uint b"
    by (simp add: zdiv_int zmod_int) 
  then have eq: "(acc * 16 + int (unat b div 16)) * 16 + int (unat b mod 16) = acc * 256 + uint b"
    by (simp add: algebra_simps)
  have "int16_digits acc (hex_byte b @ cs)
      = int16_digits ((acc * 16 + int (unat b div 16)) * 16 + int (unat b mod 16)) cs"
    by (simp add: hex_byte_def hex_digit_roundtrip [OF hi] hex_digit_roundtrip [OF lo])
  then show ?thesis by (simp only: eq)
qed

lemma int16_digits_bytes_hex:
  "int16_digits acc (bytes_hex bs) = Inr (foldl (\<lambda>acc b. acc * 256 + uint b) acc bs)"
proof (induction bs arbitrary: acc)
  case Nil
  show ?case by (simp add: bytes_hex_def)
next
  case (Cons b bs)
  have "bytes_hex (b # bs) = hex_byte b @ bytes_hex bs" by (simp add: bytes_hex_def)
  then show ?case using Cons.IH by (simp add: int16_digits_hex_byte)
qed

lemma bytes_hex_eq_Nil: "bytes_hex bs = [] \<longleftrightarrow> bs = []"
  by (cases bs) (simp_all add: bytes_hex_def hex_byte_def)

lemma int_base16_bytes_hex:
  "bs \<noteq> [] \<Longrightarrow> int_base16 (bytes_hex bs) = Inr (be_uint bs)"
  by (simp add: int_base16_def bytes_hex_eq_Nil int16_digits_bytes_hex be_uint_def)

lemma foldl_be_bounds:
  "0 \<le> acc \<Longrightarrow> 0 \<le> foldl (\<lambda>acc b. acc * 256 + uint b) acc (bs :: byte list)
     \<and> foldl (\<lambda>acc b. acc * 256 + uint b) acc bs < (acc + 1) * 256 ^ length bs"
proof (induction bs arbitrary: acc)
  case Nil
  then show ?case by simp
next
  case (Cons b bs)
  have b: "0 \<le> uint b" "uint b < 256" using uint_bounded [of b] by simp_all
  with Cons.prems have nn: "0 \<le> acc * 256 + uint b" by simp
  from Cons.IH [OF nn] have lo: "0 \<le> foldl (\<lambda>acc b. acc * 256 + uint b) (acc * 256 + uint b) bs"
    and hi: "foldl (\<lambda>acc b. acc * 256 + uint b) (acc * 256 + uint b) bs
              < (acc * 256 + uint b + 1) * 256 ^ length bs" by simp_all
  have "acc * 256 + uint b + 1 \<le> (acc + 1) * 256" using b by (simp add: algebra_simps)
  then have "(acc * 256 + uint b + 1) * 256 ^ length bs \<le> ((acc + 1) * 256) * 256 ^ length bs"
    by (rule mult_right_mono) simp
  also have "\<dots> = (acc + 1) * 256 ^ length (b # bs)" by simp
  finally have "foldl (\<lambda>acc b. acc * 256 + uint b) (acc * 256 + uint b) bs
                  < (acc + 1) * 256 ^ length (b # bs)" using hi by linarith
  with lo show ?case by simp
qed

lemma be_uint_bounds: "0 \<le> be_uint bs \<and> be_uint bs < 256 ^ length bs"
  using foldl_be_bounds [of 0 bs] by (simp add: be_uint_def)

lemma encode_each_all:
  "list_all2 (\<lambda>a bs. enc a = Inr bs) args encs \<Longrightarrow> encode_each enc args = Inr encs"
  by (induction args encs rule: list_all2_induct) simp_all

lemma encode_each_Inr:
  "encode_each enc args = Inr encs \<Longrightarrow> list_all2 (\<lambda>a bs. enc a = Inr bs) args encs"
  by (induction args arbitrary: encs) (auto split: sum.splits)

subsection \<open>The small collaborator\<close>

lemma demo_fields [simp]:
  "generator demo = 8" "point_add demo P Q = (P + Q) mod 24"
  "point_mult demo P k = (P * k) mod 24" "to_bytes demo = demo_to_bytes"
  "sha256 demo = demo_digest" "JUBJUB_E demo = 24" "JUBJUB_L demo = 3"
  by (simp_all add: demo_def)

lemma length_demo_digest [simp]: "length (demo_digest bs) = 32"
  by (simp add: demo_digest_def)

lemma foldl_be_zeros:
  "foldl (\<lambda>acc b. acc * 256 + uint b) acc (replicate k (0::byte)) = acc * 256 ^ k"
  by (induction k arbitrary: acc) (simp_all add: mult.assoc)

lemma be_uint_demo_digest [simp]: "be_uint (demo_digest bs) = uint (sum_list bs)"
  by (simp add: be_uint_def demo_digest_def foldl_be_zeros)

subsection \<open>Evaluating the operations\<close>

lemma encodings_exist:
  "\<forall>a\<in>set args. \<exists>bs. enc a = Inr bs \<Longrightarrow> \<exists>encs. list_all2 (\<lambda>a bs. enc a = Inr bs) args encs"
proof (induction args)
  case Nil
  show ?case by simp
next
  case (Cons a args)
  then obtain bs encs where "enc a = Inr bs" "list_all2 (\<lambda>a bs. enc a = Inr bs) args encs"
    by auto
  then have "list_all2 (\<lambda>a bs. enc a = Inr bs) (a # args) (bs # encs)" by simp
  then show ?case by blast
qed

lemma hash_to_scalar_encs:
  assumes "list_all2 (\<lambda>a bs. to_bytes ops a = Inr bs) args encs"
    and "sha256 ops (concat encs) \<noteq> []"
  shows "hash_to_scalar ops args = Inr (be_uint (sha256 ops (concat encs)))"
  using assms(2)
  by (simp add: hash_to_scalar_def encode_each_all [OF assms(1)] int_base16_bytes_hex)

lemma hash_to_scalar_ok:
  assumes "\<forall>a\<in>set args. \<exists>bs. to_bytes ops a = Inr bs"
    and "\<forall>x. length (sha256 ops x) = 32"
  shows "\<exists>h. hash_to_scalar ops args = Inr h \<and> 0 \<le> h"
proof -
  from encodings_exist [OF assms(1)] obtain encs
    where encs: "list_all2 (\<lambda>a bs. to_bytes ops a = Inr bs) args encs" by blast
  from assms(2) have "length (sha256 ops (concat encs)) = 32" by simp
  then have "sha256 ops (concat encs) \<noteq> []" by auto
  from hash_to_scalar_encs [OF encs this] be_uint_bounds show ?thesis by blast
qed

lemma hash_PublicKey:
  "to_bytes ops (PublicKey (Point A)) = to_bytes ops (Point A) \<Longrightarrow>
   hash_to_scalar ops [R, PublicKey (Point A), M] = hash_to_scalar ops [R, Point A, M]"
  by (simp add: hash_to_scalar_def cong: sum.case_cong)

lemma from_private_PrivateKey:
  "from_private ops (PrivateKey s) B =
     (case mult ops (base_point ops B) s of Inl e \<Rightarrow> Inl e | Inr A \<Rightarrow> Inr (PublicKey (Point A)))"
  by (simp add: from_private_def)

lemma from_private_bare:
  "\<not> is_PrivateKey s \<Longrightarrow> from_private ops s B = from_private ops (PrivateKey s) B"
  by (simp add: from_private_def)

lemma sign_FQ:
  assumes "hash_to_scalar ops [FQ k, M] = Inr r"
    and "hash_to_scalar ops [Point (point_mult ops (base_point ops B) r),
           PublicKey (Point (point_mult ops (generator ops) k)), M] = Inr h"
    and "JUBJUB_E ops \<noteq> 0"
  shows "sign ops (FQ k) M B =
           Inr (Tuple [Point (point_mult ops (base_point ops B) r),
                       PyInt ((r + k * h) mod JUBJUB_E ops)])"
  using assms
  by (simp add: sign_def from_private_def base_point_def mult_def attr_n_def py_mod_def)

lemma verify_pair:
  assumes "hash_to_scalar ops [Point R, Point A, M] = Inr h"
  shows "verify ops (Point A) (Tuple [Point R, PyInt S]) M B =
           Inr (point_mult ops (base_point ops B) S = point_add ops R (point_mult ops A h))"
  using assms
  by (simp add: verify_def unpack2_def mult_def call_mult_def call_add_def)

lemma accepts_own_signature:
  assumes laws: "group_laws ops" and enc: "encoding_ok ops M" and n: "0 \<le> n"
  shows "\<exists>sg. sign ops (FQ n) M None = Inr sg
           \<and> verify ops (Point (point_mult ops (generator ops) n)) sg M None = Inr True"
proof -
  let ?G = "generator ops" and ?E = "JUBJUB_E ops"
  let ?A = "point_mult ops ?G n"
  from enc have len: "\<forall>x. length (sha256 ops x) = 32"
    and pk: "to_bytes ops (PublicKey (Point ?A)) = to_bytes ops (Point ?A)"
    and e1: "\<forall>a\<in>set [FQ n, M]. \<exists>bs. to_bytes ops a = Inr bs"
    by (simp_all add: encoding_ok_def)
  from hash_to_scalar_ok [OF e1 len] obtain r
    where r: "hash_to_scalar ops [FQ n, M] = Inr r" and r0: "0 \<le> r" by blast
  let ?R = "point_mult ops ?G r"
  from enc have e2: "\<forall>a\<in>set [Point ?R, Point ?A, M]. \<exists>bs. to_bytes ops a = Inr bs"
    by (simp add: encoding_ok_def)
  from hash_to_scalar_ok [OF e2 len] obtain h
    where h: "hash_to_scalar ops [Point ?R, Point ?A, M] = Inr h" and h0: "0 \<le> h" by blast
  from laws have E: "0 < ?E" by (simp add: group_laws_def)
  let ?S = "(r + n * h) mod ?E"
  have h': "hash_to_scalar ops [Point (point_mult ops (base_point ops None) r),
              PublicKey (Point ?A), M] = Inr h"
    using h hash_PublicKey [OF pk] by (simp add: base_point_def)
  from E have "?E \<noteq> 0" by simp
  from sign_FQ [OF r h' this]
  have sg: "sign ops (FQ n) M None = Inr (Tuple [Point ?R, PyInt ?S])"
    by (simp add: base_point_def)
  have nh: "0 \<le> n * h" using n h0 by simp
  then have rnh: "0 \<le> r + n * h" using r0 by simp
  have "point_mult ops ?G ?S = point_mult ops ?G (r + n * h)"
    using laws rnh by (simp add: group_laws_def)
  also have "\<dots> = point_add ops ?R (point_mult ops ?G (n * h))"
    using laws r0 nh by (simp add: group_laws_def)
  also have "point_mult ops ?G (n * h) = point_mult ops ?A h"
    using laws n h0 by (simp add: group_laws_def)
  finally have eq: "point_mult ops ?G ?S = point_add ops ?R (point_mult ops ?A h)" .
  from verify_pair [OF h, of ?S None] eq
  have "verify ops (Point ?A) (Tuple [Point ?R, PyInt ?S]) M None = Inr True"
    by (simp add: base_point_def)
  with sg show ?thesis by simp
qed

subsection \<open>The scalar hash\<close>

text \<open>
  C4. When every argument has a byte encoding and the digest has 32 bytes,
  \<open>hash_to_scalar\<close> returns the digest of the concatenated encodings (in argument order,
  nothing between them) read as a big-endian unsigned integer, unreduced; the result lies in
  \<open>[0, 2^256)\<close>. Being a function of the argument list, equal lists give equal results.
\<close>

theorem hash_to_scalar_digest:
  assumes "list_all2 (\<lambda>a bs. to_bytes ops a = Inr bs) args encs"
    and "length (sha256 ops (concat encs)) = 32"
  shows "hash_to_scalar ops args = Inr (be_uint (sha256 ops (concat encs)))
       \<and> 0 \<le> be_uint (sha256 ops (concat encs))
       \<and> be_uint (sha256 ops (concat encs)) < 2 ^ 256"
proof -
  let ?d = "sha256 ops (concat encs)"
  from assms(2) have ne: "?d \<noteq> []" by auto
  have "hash_to_scalar ops args = int_base16 (bytes_hex ?d)"
    by (simp add: hash_to_scalar_def encode_each_all [OF assms(1)])
  also have "\<dots> = Inr (be_uint ?d)" by (rule int_base16_bytes_hex [OF ne])
  finally have eq: "hash_to_scalar ops args = Inr (be_uint ?d)" .
  have "(256::int) ^ 32 = 2 ^ 256" by simp
  with be_uint_bounds [of ?d] assms(2) have "0 \<le> be_uint ?d" "be_uint ?d < 2 ^ 256" by simp_all
  with eq show ?thesis by simp
qed

theorem hash_to_scalar_digest_witness:
  "hash_to_scalar demo [FQ 3, PyBytes [1, 2]] = Inr (be_uint (sha256 demo (concat [[3], [1, 2]])))
   \<and> 0 \<le> be_uint (sha256 demo (concat [[3], [1, 2]]))
   \<and> be_uint (sha256 demo (concat [[3], [1, 2]])) < 2 ^ 256"
proof -
  have h1: "list_all2 (\<lambda>a bs. to_bytes demo a = Inr bs) [FQ 3, PyBytes [1, 2]] [[3], [1, 2]]"
    by simp
  have h2: "length (sha256 demo (concat [[3], [1, 2 :: byte]])) = 32" by simp
  show ?thesis by (rule hash_to_scalar_digest [OF h1 h2])
qed

lemma demo_group_laws: "group_laws demo"
  by (simp add: group_laws_def mod_simps algebra_simps)

lemma demo_encoding_ok: "encoding_ok demo (PyBytes bs)"
  by (simp add: encoding_ok_def)

lemma demo_hash:
  "encode_each demo_to_bytes args = Inr encs \<Longrightarrow>
   hash_to_scalar demo args = Inr (uint (sum_list (concat encs)))"
proof -
  assume "encode_each demo_to_bytes args = Inr encs"
  then have encs: "list_all2 (\<lambda>a bs. to_bytes demo a = Inr bs) args encs"
    by (simp add: encode_each_Inr)
  have "sha256 demo (concat encs) \<noteq> []" by (simp add: demo_digest_def)
  from hash_to_scalar_encs [OF encs this] show ?thesis by simp
qed

lemma demo_hash_key: "hash_to_scalar demo [FQ 2, PyBytes [1, 2]] = Inr 5"
  using demo_hash [of "[FQ 2, PyBytes [1, 2]]" "[[2], [1, 2]]"] by simp

lemma demo_hash_sign: "hash_to_scalar demo [Point 16, PublicKey (Point 16), PyBytes [1, 2]] = Inr 35"
  using demo_hash [of "[Point 16, PublicKey (Point 16), PyBytes [1, 2]]" "[[16], [16], [1, 2]]"]
  by simp

lemma demo_hash_verify: "hash_to_scalar demo [Point 16, Point 16, PyBytes [1, 2]] = Inr 35"
  using demo_hash [of "[Point 16, Point 16, PyBytes [1, 2]]" "[[16], [16], [1, 2]]"]
  by simp

lemma demo_sign: "sign demo (FQ 2) (PyBytes [1, 2]) None = Inr (Tuple [Point 16, PyInt 3])"
  using sign_FQ [of demo 2 "PyBytes [1, 2]" 5 None 35]
  by (simp add: demo_hash_key demo_hash_sign base_point_def)

subsection \<open>Signing and verification\<close>

text \<open>
  C1. Round trip: for a secret key that wraps the field element \<open>FQ k\<close> (\<open>0 \<le> k\<close>) and a
  message \<open>M\<close>, the public key is derived, signing returns a signature, and verifying that
  signature against that public key returns \<open>True\<close>. The collaborators obey their contract:
  the generator's scalar multiplication is linear and reduces modulo \<^verbatim>\<open>JUBJUB_E\<close>, and the
  hash inputs have encodings, the \<^verbatim>\<open>PublicKey\<close> object (hashed by \<^verbatim>\<open>sign\<close>) being encoded as
  the point it wraps (hashed by \<^verbatim>\<open>verify\<close>).
\<close>

theorem sign_verify_roundtrip:
  assumes "group_laws ops" and "encoding_ok ops M" and "0 \<le> k"
  shows "\<exists>A sg. from_private ops (PrivateKey (FQ k)) None = Inr (PublicKey A)
           \<and> sign ops (FQ k) M None = Inr sg
           \<and> verify ops A sg M None = Inr True"
proof -
  have "from_private ops (PrivateKey (FQ k)) None
          = Inr (PublicKey (Point (point_mult ops (generator ops) k)))"
    by (simp add: from_private_def mult_def base_point_def)
  with accepts_own_signature [OF assms] show ?thesis by blast
qed

theorem sign_verify_roundtrip_witness:
  "\<exists>A sg. from_private demo (PrivateKey (FQ 2)) None = Inr (PublicKey A)
           \<and> sign demo (FQ 2) (PyBytes [1, 2]) None = Inr sg
           \<and> verify demo A sg (PyBytes [1, 2]) None = Inr True"
proof -
  have k: "(0::int) \<le> 2" by simp
  show ?thesis by (rule sign_verify_roundtrip [OF demo_group_laws demo_encoding_ok k])
qed

text \<open>
  C2. For a public key \<open>A\<close>, a signature \<open>(R, S)\<close> and a message \<open>M\<close> whose challenge hash
  \<open>h\<close> of \<open>(R, A, M)\<close> is computed, \<open>verify\<close> returns the truth value of
  \<open>generator * S = R + A * h\<close>. Its arguments are the public key, the signature and the
  message: no secret key is among them.
\<close>

theorem verify_equation:
  assumes "hash_to_scalar ops [Point R, Point A, M] = Inr h"
  shows "verify ops (Point A) (Tuple [Point R, PyInt S]) M None
           = Inr (point_mult ops (generator ops) S = point_add ops R (point_mult ops A h))"
  using verify_pair [OF assms, of S None] by (simp add: base_point_def)

theorem verify_equation_witness:
  "verify demo (Point 16) (Tuple [Point 16, PyInt 3]) (PyBytes [1, 2]) None
     = Inr (point_mult demo (generator demo) 3 = point_add demo 16 (point_mult demo 16 35))"
  by (rule verify_equation [OF demo_hash_verify])

text \<open>
  C3. For the key \<open>FQ k\<close> and a message \<open>M\<close>, with \<open>r\<close> the scalar hash of \<open>(k, M)\<close> and
  \<open>h\<close> the scalar hash of \<open>(R, A, M)\<close>, where \<open>R = generator * r\<close> and \<open>A\<close> is the public
  key of \<open>k\<close>, \<open>sign\<close> returns \<open>(R, (r + k * h) mod JUBJUB_E)\<close>: neither \<open>r\<close>, \<open>h\<close> nor \<open>k\<close>
  is reduced before the sum, and the result satisfies \<open>0 \<le> S < JUBJUB_E\<close> for a positive
  \<^verbatim>\<open>JUBJUB_E\<close>.
\<close>

theorem sign_components:
  assumes "hash_to_scalar ops [FQ k, M] = Inr r"
    and "hash_to_scalar ops [Point (point_mult ops (generator ops) r),
           PublicKey (Point (point_mult ops (generator ops) k)), M] = Inr h"
    and "0 < JUBJUB_E ops"
  shows "from_private ops (PrivateKey (FQ k)) None
           = Inr (PublicKey (Point (point_mult ops (generator ops) k)))
       \<and> sign ops (FQ k) M None
           = Inr (Tuple [Point (point_mult ops (generator ops) r),
                         PyInt ((r + k * h) mod JUBJUB_E ops)])
       \<and> 0 \<le> (r + k * h) mod JUBJUB_E ops
       \<and> (r + k * h) mod JUBJUB_E ops < JUBJUB_E ops"
proof -
  have A: "from_private ops (PrivateKey (FQ k)) None
             = Inr (PublicKey (Point (point_mult ops (generator ops) k)))"
    by (simp add: from_private_def mult_def base_point_def)
  from assms(3) have ne: "JUBJUB_E ops \<noteq> 0" by simp
  have "sign ops (FQ k) M None
          = Inr (Tuple [Point (point_mult ops (generator ops) r),
                        PyInt ((r + k * h) mod JUBJUB_E ops)])"
    using sign_FQ [of ops k M r None h] assms(1,2) ne by (simp add: base_point_def)
  with A assms(3) show ?thesis by simp
qed

theorem sign_components_witness:
  "from_private demo (PrivateKey (FQ 2)) None
           = Inr (PublicKey (Point (point_mult demo (generator demo) 2)))
       \<and> sign demo (FQ 2) (PyBytes [1, 2]) None
           = Inr (Tuple [Point (point_mult demo (generator demo) 5),
                         PyInt ((5 + 2 * 35) mod JUBJUB_E demo)])
       \<and> 0 \<le> (5 + 2 * 35) mod JUBJUB_E demo
       \<and> (5 + 2 * 35) mod JUBJUB_E demo < JUBJUB_E demo"
proof -
  have h2: "hash_to_scalar demo [Point (point_mult demo (generator demo) 5),
           PublicKey (Point (point_mult demo (generator demo) 2)), PyBytes [1, 2]] = Inr 35"
    using demo_hash_sign by simp
  have E: "0 < JUBJUB_E demo" by simp
  show ?thesis by (rule sign_components [OF demo_hash_key h2 E])
qed

lemma unpack2_wrong_length: "length xs \<noteq> 2 \<Longrightarrow> unpack2 (Tuple xs) = Inl ValueError"
  by (auto simp: unpack2_def split: list.splits)

text \<open>
  C5, as stated, fails: \<open>verify\<close> has no exception handler, and a signature that is a tuple
  of three items makes the tuple assignment \<^verbatim>\<open>R, S = sig\<close> raise \<^verbatim>\<open>ValueError\<close>.
\<close>

theorem verify_raises_on_wrong_shape:
  "verify demo (Point 16) (Tuple [Point 16, PyInt 3, PyInt 0]) (PyBytes [1, 2]) None
     = Inl ValueError"
  by (simp add: verify_def unpack2_def)

text \<open>
  C5, amended. For a signature that is a pair \<open>(R, S)\<close> of a point and an integer, a public
  key that is a point and hash inputs that have encodings, \<open>verify\<close> returns a truth value
  and raises nothing; for a tuple of any other length it raises \<^verbatim>\<open>ValueError\<close>.
\<close>

theorem verify_returns_on_pairs:
  "(hash_to_scalar ops [Point R, Point A, M] = Inr h \<longrightarrow>
      (\<exists>b. verify ops (Point A) (Tuple [Point R, PyInt S]) M B = Inr b))
   \<and> (length xs \<noteq> 2 \<longrightarrow> verify ops p (Tuple xs) M B = Inl ValueError)"
proof (intro conjI impI)
  assume "hash_to_scalar ops [Point R, Point A, M] = Inr h"
  from verify_pair [OF this, of S B]
  show "\<exists>b. verify ops (Point A) (Tuple [Point R, PyInt S]) M B = Inr b" by blast
next
  assume "length xs \<noteq> 2"
  then show "verify ops p (Tuple xs) M B = Inl ValueError"
    by (simp add: verify_def unpack2_wrong_length)
qed

theorem verify_returns_on_pairs_witness:
  "hash_to_scalar demo [Point 16, Point 16, PyBytes [1, 2]] = Inr 35
   \<and> (\<exists>b. verify demo (Point 16) (Tuple [Point 16, PyInt 3]) (PyBytes [1, 2]) None = Inr b)
   \<and> length [Point 16, PyInt 3, PyInt 0 :: int pyval] \<noteq> 2
   \<and> verify demo (Point 16) (Tuple [Point 16, PyInt 3, PyInt 0]) (PyBytes [1, 2]) None
        = Inl ValueError"
  using verify_returns_on_pairs [of demo 16 16 "PyBytes [1, 2]" 35 3 None
          "[Point 16, PyInt 3, PyInt 0]" "Point 16"] demo_hash_verify
  by simp

lemma sign_int_key_raises: "\<exists>e. sign ops (PyInt n) M B = Inl e"
  by (simp add: sign_def attr_n_def split: sum.splits)

text \<open>
  C7, amended. The signature of \<open>k1\<close> is accepted under the public key derived from any
  non-negative scalar \<open>k2\<close> that is congruent to \<open>k1\<close> modulo \<^verbatim>\<open>JUBJUB_E\<close>, equal to \<open>k1\<close> or
  not: \<open>verify\<close> can return \<open>False\<close> only for scalars that are not congruent.
\<close>

theorem congruent_key_accepted:
  assumes "group_laws ops" and "encoding_ok ops M" and "0 \<le> k1" and "0 \<le> k2"
    and "k2 mod JUBJUB_E ops = k1 mod JUBJUB_E ops"
  shows "\<exists>A sg. from_private ops (PyInt k2) None = Inr (PublicKey A)
           \<and> sign ops (FQ k1) M None = Inr sg
           \<and> verify ops A sg M None = Inr True"
proof -
  let ?G = "generator ops"
  have "point_mult ops ?G k2 = point_mult ops ?G (k2 mod JUBJUB_E ops)"
    using assms(1,4) by (simp add: group_laws_def)
  also have "\<dots> = point_mult ops ?G k1"
    using assms(1,3,5) by (simp add: group_laws_def)
  finally have "from_private ops (PyInt k2) None = Inr (PublicKey (Point (point_mult ops ?G k1)))"
    by (simp add: from_private_def mult_def base_point_def)
  with accepts_own_signature [OF assms(1,2,3)] show ?thesis by blast
qed

theorem congruent_key_accepted_witness:
  "\<exists>A sg. from_private demo (PyInt 26) None = Inr (PublicKey A)
           \<and> sign demo (FQ 2) (PyBytes [1, 2]) None = Inr sg
           \<and> verify demo A sg (PyBytes [1, 2]) None = Inr True"
proof -
  have k1: "(0::int) \<le> 2" and k2: "(0::int) \<le> 26"
    and c: "26 mod JUBJUB_E demo = 2 mod JUBJUB_E demo" by simp_all
  show ?thesis
    by (rule congruent_key_accepted [OF demo_group_laws demo_encoding_ok k1 k2 c])
qed

text \<open>
  C7, as stated, fails: the scalars 2 and 26 differ, they derive the same public key in the
  small collaborator (whose \<^verbatim>\<open>JUBJUB_E\<close> is 24), and the signature of the first is accepted
  under the public key of the second.
\<close>

theorem distinct_keys_accepted:
  "(2::int) \<noteq> 26
   \<and> from_private demo (PyInt 26) None = Inr (PublicKey (Point 16))
   \<and> sign demo (FQ 2) (PyBytes [1, 2]) None = Inr (Tuple [Point 16, PyInt 3])
   \<and> verify demo (Point 16) (Tuple [Point 16, PyInt 3]) (PyBytes [1, 2]) None = Inr True"
  using verify_pair [OF demo_hash_verify, of 3 None]
  by (simp add: demo_sign from_private_def mult_def base_point_def)

text \<open>
  C10. \<open>from_private\<close> of a \<^verbatim>\<open>PrivateKey\<close> object is the public key that wraps the base
  point (the generator, or \<open>B\<close> when supplied) multiplied by the stored scalar, and
  \<open>from_private\<close> of a value that is not a \<^verbatim>\<open>PrivateKey\<close> is \<open>from_private\<close> of that value
  wrapped into one.
\<close>

theorem from_private_wraps_scalar:
  "from_private ops (PrivateKey s) B
     = (case mult ops (base_point ops B) s of
          Inl e \<Rightarrow> Inl e
        | Inr A \<Rightarrow> Inr (PublicKey (Point A)))
   \<and> (\<not> is_PrivateKey s \<longrightarrow> from_private ops s B = from_private ops (PrivateKey s) B)"
  by (simp add: from_private_def)

theorem from_private_wraps_scalar_witness:
  "from_private demo (PrivateKey (PyInt 5)) (Some 1)
     = (case mult demo (base_point demo (Some 1)) (PyInt 5) of
          Inl e \<Rightarrow> Inl e
        | Inr A \<Rightarrow> Inr (PublicKey (Point A)))
   \<and> \<not> is_PrivateKey (PyInt 5 :: int pyval)
   \<and> from_private demo (PyInt 5) (Some 1) = from_private demo (PrivateKey (PyInt 5)) (Some 1)"
  using from_private_wraps_scalar [of demo "PyInt 5" "Some 1"] by simp

subsection \<open>Key generation\<close>

lemma ceil_log2_ceillog2:
  assumes "0 < m" shows "\<lceil>log 2 (real_of_int m)\<rceil> = int (ceillog2 (nat m))"
proof -
  from assms have "1 \<le> real_of_int m" by simp
  then have "0 \<le> log 2 (real_of_int m)" by simp
  then have "0 \<le> \<lceil>log 2 (real_of_int m)\<rceil>" by linarith
  moreover have "real (nat m) = real_of_int m" using assms by simp
  ultimately show ?thesis using assms by (simp add: ceillog2_def)
qed

lemma rand_nbytes_ceillog2:
  assumes "0 < m" shows "rand_nbytes m = int ((ceillog2 (nat m) + 7) div 8) + 1"
proof -
  have "\<lceil>real_of_int (int (ceillog2 (nat m))) / 8\<rceil> = - (- int (ceillog2 (nat m)) div 8)"
    using ceiling_divide_eq_div [of "int (ceillog2 (nat m))" 8] by simp
  also have "\<dots> = int ((ceillog2 (nat m) + 7) div 8)" by (simp add: zdiv_int)
  finally show ?thesis by (simp add: rand_nbytes_def ceil_log2_ceillog2 [OF assms])
qed

lemma rand_nbytes_pos: "0 < m \<Longrightarrow> 1 \<le> rand_nbytes m"
  by (simp add: rand_nbytes_ceillog2)

lemma int_from_bytes_little_bounds:
  "0 \<le> int_from_bytes_little bs \<and> int_from_bytes_little bs < 256 ^ length bs"
proof (induction bs)
  case Nil
  show ?case by simp
next
  case (Cons b bs)
  have "0 \<le> uint b" "uint b < 256" using uint_bounded [of b] by simp_all
  with Cons.IH show ?case by simp
qed

lemma int_from_bytes_little_sum:
  "int_from_bytes_little bs = (\<Sum>i<length bs. uint (bs ! i) * 256 ^ i)"
proof (induction bs)
  case Nil
  show ?case by simp
next
  case (Cons b bs)
  have "(\<Sum>i<length (b # bs). uint ((b # bs) ! i) * 256 ^ i)
          = uint b + (\<Sum>i<length bs. uint (bs ! i) * 256 ^ Suc i)"
    by (simp add: sum.lessThan_Suc_shift del: sum.lessThan_Suc)
  also have "(\<Sum>i<length bs. uint (bs ! i) * 256 ^ Suc i)
          = 256 * (\<Sum>i<length bs. uint (bs ! i) * 256 ^ i)"
    by (simp add: sum_distrib_left mult_ac)
  finally show ?case using Cons.IH by simp
qed

lemma int_from_bytes_little_ff:
  "int_from_bytes_little (replicate n 255) = 256 ^ n - 1"
  by (induction n) simp_all

lemma stake_sconst: "stake n (sconst x) = replicate n x"
  by (simp add: map_replicate_const)

lemma rand_nbytes_covers:
  assumes "0 < m" shows "m < 256 ^ nat (rand_nbytes m)"
proof -
  let ?c = "ceillog2 (nat m)"
  have n: "nat (rand_nbytes m) = (?c + 7) div 8 + 1"
    by (simp add: rand_nbytes_ceillog2 [OF assms] nat_add_distrib)
  have "?c < 8 * nat (rand_nbytes m)" unfolding n by presburger
  then have "(2::nat) ^ ?c < 2 ^ (8 * nat (rand_nbytes m))" by simp
  also have "\<dots> = 256 ^ nat (rand_nbytes m)" by (simp add: power_mult)
  finally have "nat m < 256 ^ nat (rand_nbytes m)"
    using le_two_power_ceillog2 [of "nat m"] by linarith
  then have "int (nat m) < int (256 ^ nat (rand_nbytes m))" by (simp only: of_nat_less_iff)
  then show ?thesis using assms by simp
qed

lemma from_rand_eval:
  "0 < JUBJUB_L ops \<Longrightarrow>
   from_rand ops u =
     (Inr (PrivateKey (PyInt (int_from_bytes_little (stake (nat (rand_nbytes (JUBJUB_L ops))) u)))),
      sdrop (nat (rand_nbytes (JUBJUB_L ops))) u)"
  by (simp add: from_rand_def Let_def)

text \<open>
  C9. For a positive \<^verbatim>\<open>JUBJUB_L\<close>, \<open>from_rand\<close> takes \<open>ceil(ceil(log2 L) / 8) + 1\<close> bytes from
  the entropy source and leaves the rest; the key holds their little-endian value as a plain
  integer, not reduced. That value is at least 0 and below \<open>2 ^ (8 * nbytes)\<close>, and it can be
  as large as \<^verbatim>\<open>JUBJUB_L\<close> or larger: it is when every byte drawn is 255.
\<close>

theorem from_rand_draw:
  assumes "0 < JUBJUB_L ops"
  shows "int (nat (rand_nbytes (JUBJUB_L ops)))
           = \<lceil>real_of_int \<lceil>log 2 (real_of_int (JUBJUB_L ops))\<rceil> / 8\<rceil> + 1
       \<and> length (stake (nat (rand_nbytes (JUBJUB_L ops))) u) = nat (rand_nbytes (JUBJUB_L ops))
       \<and> from_rand ops u =
           (Inr (PrivateKey (PyInt
              (int_from_bytes_little (stake (nat (rand_nbytes (JUBJUB_L ops))) u)))),
            sdrop (nat (rand_nbytes (JUBJUB_L ops))) u)
       \<and> 0 \<le> int_from_bytes_little (stake (nat (rand_nbytes (JUBJUB_L ops))) u)
       \<and> int_from_bytes_little (stake (nat (rand_nbytes (JUBJUB_L ops))) u)
           < 2 ^ (8 * nat (rand_nbytes (JUBJUB_L ops)))
       \<and> JUBJUB_L ops
           \<le> int_from_bytes_little (stake (nat (rand_nbytes (JUBJUB_L ops))) (sconst 255))"
proof -
  let ?n = "nat (rand_nbytes (JUBJUB_L ops))"
  have n: "int ?n = \<lceil>real_of_int \<lceil>log 2 (real_of_int (JUBJUB_L ops))\<rceil> / 8\<rceil> + 1"
    using rand_nbytes_pos [OF assms] by (simp add: rand_nbytes_def)
  have p: "(256::int) ^ ?n = 2 ^ (8 * ?n)" by (simp add: power_mult)
  have b: "0 \<le> int_from_bytes_little (stake ?n u)"
    "int_from_bytes_little (stake ?n u) < 2 ^ (8 * ?n)"
    using int_from_bytes_little_bounds [of "stake ?n u"] p by simp_all
  have "JUBJUB_L ops \<le> int_from_bytes_little (stake ?n (sconst 255))"
    using rand_nbytes_covers [OF assms]
    by (simp only: stake_sconst int_from_bytes_little_ff)
  with n b from_rand_eval [OF assms, of u] show ?thesis by simp
qed

lemma demo_rand_nbytes: "nat (rand_nbytes (JUBJUB_L demo)) = 2"
proof -
  have "ceillog2 3 = 2" by (rule ceillog2_eqI) simp_all
  then show ?thesis by (simp add: rand_nbytes_ceillog2)
qed

lemma demo_from_rand:
  "from_rand demo (sconst 255) = (Inr (PrivateKey (PyInt 65535)), sconst 255)"
proof -
  have "int_from_bytes_little (stake 2 (sconst (255::byte))) = 65535"
    by (simp only: stake_sconst int_from_bytes_little_ff) simp
  moreover have "sdrop 2 (sconst (255::byte)) = sconst 255" by simp
  moreover have "0 < JUBJUB_L demo" by simp
  ultimately show ?thesis
    using from_rand_eval [of demo "sconst 255"] by (simp only: demo_rand_nbytes)
qed

theorem from_rand_draw_witness:
  "int (nat (rand_nbytes (JUBJUB_L demo)))
           = \<lceil>real_of_int \<lceil>log 2 (real_of_int (JUBJUB_L demo))\<rceil> / 8\<rceil> + 1
       \<and> length (stake (nat (rand_nbytes (JUBJUB_L demo))) (sconst (7::byte))) = nat (rand_nbytes (JUBJUB_L demo))
       \<and> from_rand demo (sconst (7::byte)) =
           (Inr (PrivateKey (PyInt
              (int_from_bytes_little (stake (nat (rand_nbytes (JUBJUB_L demo))) (sconst (7::byte)))))),
            sdrop (nat (rand_nbytes (JUBJUB_L demo))) (sconst (7::byte)))
       \<and> 0 \<le> int_from_bytes_little (stake (nat (rand_nbytes (JUBJUB_L demo))) (sconst (7::byte)))
       \<and> int_from_bytes_little (stake (nat (rand_nbytes (JUBJUB_L demo))) (sconst (7::byte)))
           < 2 ^ (8 * nat (rand_nbytes (JUBJUB_L demo)))
       \<and> JUBJUB_L demo
           \<le> int_from_bytes_little (stake (nat (rand_nbytes (JUBJUB_L demo))) (sconst 255))"
proof -
  have L: "0 < JUBJUB_L demo" by simp
  show ?thesis by (rule from_rand_draw [OF L])
qed

text \<open>
  C6 fails on the code. \<^verbatim>\<open>PrivateKey\<close> is documented to wrap a field element and \<open>sign\<close>
  reads \<^verbatim>\<open>self.fe.n\<close>, but \<open>from_rand\<close> stores the sampled integer itself (the module imports
  \<^verbatim>\<open>FQ\<close> and never uses it), and an integer has no attribute \<^verbatim>\<open>n\<close>: whatever the
  collaborators are, the key that \<open>from_rand\<close> returns makes \<open>sign\<close> raise.
\<close>

theorem from_rand_key_cannot_sign:
  "fst (from_rand ops u) = Inl ValueError
   \<or> (\<exists>n e. fst (from_rand ops u) = Inr (PrivateKey (PyInt n))
            \<and> sign ops (PyInt n) M B = Inl e)"
  using sign_int_key_raises [of ops _ M B] by (simp add: from_rand_def Let_def)

lemma demo_from_rand_sign:
  "fst (from_rand demo (sconst 255)) = Inr (PrivateKey (PyInt 65535))
   \<and> sign demo (PyInt 65535) (PyBytes [1, 2]) None = Inl AttributeError"
proof -
  have r: "hash_to_scalar demo [PyInt 65535, PyBytes [1, 2]] = Inr 2"
    using demo_hash [of "[PyInt 65535, PyBytes [1, 2]]" "[[255], [1, 2]]"] by simp
  have h: "hash_to_scalar demo [Point 16, PublicKey (Point 0), PyBytes [1, 2]] = Inr 19"
    using demo_hash [of "[Point 16, PublicKey (Point 0), PyBytes [1, 2]]" "[[16], [0], [1, 2]]"]
    by simp
  show ?thesis
    by (simp add: demo_from_rand sign_def from_private_def mult_def base_point_def r h attr_n_def)
qed

text \<open>
  C8. Run with any two states \<open>u\<close> and \<open>v\<close> of the entropy source, \<open>sign\<close> returns the same
  result and leaves the source as it found it, and so does \<open>verify\<close>. The key that
  \<open>from_rand\<close> generates depends on the source only through the bytes it draws: what
  follows them has no influence.
\<close>

theorem sign_verify_deterministic:
  "fst (run_sign ops k M B u) = fst (run_sign ops k M B v)
   \<and> snd (run_sign ops k M B u) = u
   \<and> fst (run_verify ops p sg M B u) = fst (run_verify ops p sg M B v)
   \<and> snd (run_verify ops p sg M B u) = u
   \<and> fst (from_rand ops (stake (nat (rand_nbytes (JUBJUB_L ops))) u @- v)) = fst (from_rand ops u)"
  by (simp add: run_sign_def run_verify_def from_rand_def Let_def stake_shift)

end
